theory Spec2Isabelle
  imports Main "HOL-Library.Sublist"
begin

section \<open>Data model\<close>

text \<open>
  The values walked by the sanitizer are JSON-like JavaScript values. Numbers are the
  integer-valued ones (a JSON integer below \<open>10^21\<close> in magnitude, which prints in plain
  decimal). A plain object is the list of its own entries, in the order
  \<^verbatim>\<open>Object.entries\<close> yields them, with pairwise different ordinary keys. \<open>JOther\<close> is an
  object that \<^verbatim>\<open>isPlainObject\<close> rejects (a \<^verbatim>\<open>Date\<close>, a class instance), named by the
  string its \<^verbatim>\<open>toString\<close> gives.
\<close>

datatype jvalue =
    JString string
  | JNumber int
  | JBoolean bool
  | JNull
  | JUndefined
  | JArray "jvalue list"
  | JObject "(string \<times> jvalue) list"
  | JOther string

text \<open>
  What a \<^verbatim>\<open>throw\<close> carries: an \<^verbatim>\<open>Error\<close> instance with its message, or any other
  value, kept as the string \<^verbatim>\<open>String(error)\<close> makes of it.
\<close>

datatype thrown = ErrorObject string | NonError string

text \<open>
  The three observers are optional callbacks. A run of the walker yields, next to its
  result, the calls it makes to them, in order. The second argument of \<^verbatim>\<open>onSkip\<close> and
  both value arguments of \<^verbatim>\<open>onSanitize\<close> are JavaScript values.
\<close>

datatype event =
    OnSanitize string jvalue jvalue
  | OnSkip string jvalue
  | OnError thrown string

datatype SanitizationMode = Strict | Html | Skip | Custom

datatype ArrayStrategy = ArraySkip | ArrayEach | ArrayJoin

text \<open>
  \<^verbatim>\<open>DOMPurifyConfig\<close>: the walker only builds the two configurations below and passes
  every other one through to DOMPurify unread, so the list-valued settings stand for the
  whole type.
\<close>

record DOMPurifyConfig =
  ALLOWED_TAGS :: "string list option"
  ALLOWED_ATTR :: "string list option"
  FORBID_TAGS :: "string list option"
  FORBID_ATTR :: "string list option"

text \<open>\<^verbatim>\<open>{ ALLOWED_TAGS: [], ALLOWED_ATTR: [] }\<close> and \<^verbatim>\<open>{}\<close>.\<close>

definition stripAllConfig :: DOMPurifyConfig where
  "stripAllConfig =
     \<lparr>ALLOWED_TAGS = Some [], ALLOWED_ATTR = Some [], FORBID_TAGS = None, FORBID_ATTR = None\<rparr>"

definition emptyConfig :: DOMPurifyConfig where
  "emptyConfig =
     \<lparr>ALLOWED_TAGS = None, ALLOWED_ATTR = None, FORBID_TAGS = None, FORBID_ATTR = None\<rparr>"

text \<open>
  \<^verbatim>\<open>DOMPurify.sanitize\<close> is an imported library function. It is a parameter of every
  definition that calls it.
\<close>

type_synonym purifier = "string \<Rightarrow> DOMPurifyConfig \<Rightarrow> string"

text \<open>
  \<^verbatim>\<open>FieldConfig\<close>. Its fields \<^verbatim>\<open>mode\<close>, \<^verbatim>\<open>config\<close> and \<^verbatim>\<open>sanitizer\<close> carry the prefix
  \<open>fc_\<close>, since the options have a \<^verbatim>\<open>mode\<close> and a \<^verbatim>\<open>config\<close> of their own. A custom
  sanitizer returns a value or throws.
\<close>

record FieldConfig =
  fc_mode :: SanitizationMode
  fc_config :: "DOMPurifyConfig option"
  fc_sanitizer :: "(jvalue \<Rightarrow> thrown + jvalue) option"

text \<open>
  \<^verbatim>\<open>SanitizationContext["options"]\<close> without \<^verbatim>\<open>targets\<close>, which only the middleware
  reads. An observer is present or absent; \<open>onSanitize\<close>, \<open>onSkip\<close> and \<open>onError\<close> say
  which. The option \<^verbatim>\<open>fields\<close> is \<open>fields_cfg\<close> (the record package owns the name \<open>fields\<close>).
\<close>

record SanitizerOptions =
  mode :: SanitizationMode
  whitelist :: "string list option"
  blacklist :: "string list option"
  fields_cfg :: "(string \<rightharpoonup> FieldConfig) option"
  deep :: bool
  maxDepth :: int
  arrays :: ArrayStrategy
  config :: "DOMPurifyConfig option"
  onSanitize :: bool
  onSkip :: bool
  onError :: bool
  throwOnError :: bool

record SanitizationContext =
  options :: SanitizerOptions
  currentDepth :: int
  path :: "string list"

type_synonym 'a outcome = "(thrown + 'a) \<times> event list"

section \<open>Strings\<close>

text \<open>\<^verbatim>\<open>parts.join(sep)\<close> on an array of strings.\<close>

fun join :: "string \<Rightarrow> string list \<Rightarrow> string" where
  "join sep [] = []"
| "join sep [x] = x"
| "join sep (x # y # ys) = x @ sep @ join sep (y # ys)"

text \<open>\<^verbatim>\<open>s.split(c)\<close> for a one-character separator: never empty, \<^verbatim>\<open>"".split(".")\<close> is \<^verbatim>\<open>[""]\<close>.\<close>

fun split :: "char \<Rightarrow> string \<Rightarrow> string list" where
  "split c [] = [[]]"
| "split c (x # xs) =
     (if x = c then [] # split c xs
      else (case split c xs of [] \<Rightarrow> [[x]] | p # ps \<Rightarrow> (x # p) # ps))"

text \<open>\<^verbatim>\<open>String(n)\<close> for an array index and for an integer.\<close>

fun digits :: "nat \<Rightarrow> string" where
  "digits n =
     (if n < 10 then [''0123456789'' ! n]
      else digits (n div 10) @ [''0123456789'' ! (n mod 10)])"

declare digits.simps [simp del]

definition stringOfInt :: "int \<Rightarrow> string" where
  "stringOfInt i = (if i < 0 then CHR ''-'' # digits (nat (- i)) else digits (nat i))"

text \<open>
  \<^verbatim>\<open>String(v)\<close>, and \<^verbatim>\<open>value.join(sep)\<close> on an array of any values: \<^verbatim>\<open>null\<close> and
  \<^verbatim>\<open>undefined\<close> elements give the empty string, a nested array is joined with commas.
\<close>

fun toString :: "jvalue \<Rightarrow> string"
  and elementString :: "jvalue \<Rightarrow> string" where
  "toString (JString s) = s"
| "toString (JNumber n) = stringOfInt n"
| "toString (JBoolean b) = (if b then ''true'' else ''false'')"
| "toString JNull = ''null''"
| "toString JUndefined = ''undefined''"
| "toString (JArray xs) = join '','' (map elementString xs)"
| "toString (JObject es) = ''[object Object]''"
| "toString (JOther s) = s"
| "elementString v = (case v of JNull \<Rightarrow> [] | JUndefined \<Rightarrow> [] | _ \<Rightarrow> toString v)"

definition arrayJoin :: "string \<Rightarrow> jvalue list \<Rightarrow> string" where
  "arrayJoin sep xs = join sep (map elementString xs)"

section \<open>The policy resolver\<close>

definition isPlainObject :: "jvalue \<Rightarrow> bool" where
  "isPlainObject v = (case v of JObject es \<Rightarrow> True | _ \<Rightarrow> False)"

text \<open>
  The test both lists apply to an entry:
  \<^verbatim>\<open>fieldPath === pattern || fieldPath.startsWith(`${pattern}.`)\<close>.
\<close>

definition matchesPattern :: "string \<Rightarrow> string \<Rightarrow> bool" where
  "matchesPattern fieldPath pattern \<longleftrightarrow>
     fieldPath = pattern \<or> prefix (pattern @ ''.'') fieldPath"

definition shouldSanitizeField :: "string \<Rightarrow> SanitizerOptions \<Rightarrow> bool" where
  "shouldSanitizeField fieldPath opts =
     (case whitelist opts of
        Some (w # ws) \<Rightarrow> list_ex (matchesPattern fieldPath) (w # ws)
      | _ \<Rightarrow>
        (case blacklist opts of
           Some (b # bs) \<Rightarrow> \<not> list_ex (matchesPattern fieldPath) (b # bs)
         | _ \<Rightarrow> True))"

text \<open>
  The loop of \<^verbatim>\<open>getFieldConfig\<close>: \<^verbatim>\<open>for (let i = parts.length - 1; i > 0; i--)\<close>, looking
  up \<^verbatim>\<open>parts.slice(0, i).join(".")\<close>. The map \<open>fs\<close> holds the own entries of \<^verbatim>\<open>fields\<close>. For
  a name that \<^verbatim>\<open>fields\<close> inherits from \<^verbatim>\<open>Object.prototype\<close> (as \<^verbatim>\<open>"constructor"\<close>) the lookup gives
  an object without \<^verbatim>\<open>mode\<close>, \<^verbatim>\<open>config\<close> or \<^verbatim>\<open>sanitizer\<close>; such a name has no dot, so it is the
  last path looked up, and the walker treats the object as it treats \<^verbatim>\<open>null\<close>.
\<close>

fun parentLoop :: "(string \<rightharpoonup> FieldConfig) \<Rightarrow> string list \<Rightarrow> nat \<Rightarrow> FieldConfig option" where
  "parentLoop fs parts 0 = None"
| "parentLoop fs parts (Suc i) =
     (case fs (join ''.'' (take (Suc i) parts)) of
        Some fc \<Rightarrow> Some fc
      | None \<Rightarrow> parentLoop fs parts i)"

definition getFieldConfig :: "string \<Rightarrow> SanitizerOptions \<Rightarrow> FieldConfig option" where
  "getFieldConfig fieldPath opts =
     (case fields_cfg opts of
        None \<Rightarrow> None
      | Some fs \<Rightarrow>
        (case fs fieldPath of
           Some fc \<Rightarrow> Some fc
         | None \<Rightarrow>
           (let parts = split CHR ''.'' fieldPath
            in parentLoop fs parts (length parts - 1))))"

section \<open>The scalar transformer and the observers\<close>

definition sanitizeString :: "purifier \<Rightarrow> string \<Rightarrow> SanitizationMode \<Rightarrow> DOMPurifyConfig option \<Rightarrow> string" where
  "sanitizeString purify v m cfg =
     (if m = Strict then purify v stripAllConfig
      else if m = Html then purify v (case cfg of Some c \<Rightarrow> c | None \<Rightarrow> emptyConfig)
      else v)"

text \<open>\<^verbatim>\<open>observer?.(...)\<close>: the call is made when the observer is present.\<close>

definition notify :: "bool \<Rightarrow> event \<Rightarrow> event list" where
  "notify present e = (if present then [e] else [])"

text \<open>
  \<^verbatim>\<open>shouldSkipField\<close> has no parameter for the value of the node: both of its calls hand
  \<^verbatim>\<open>ctx.path\<close>, the array of path segments, to \<^verbatim>\<open>onSkip\<close>.
\<close>

definition shouldSkipField :: "string \<Rightarrow> FieldConfig option \<Rightarrow> SanitizationContext \<Rightarrow> bool \<times> event list" where
  "shouldSkipField fieldPath fieldConfig ctx =
     (if \<not> shouldSanitizeField fieldPath (options ctx)
      then (True, notify (onSkip (options ctx)) (OnSkip fieldPath (JArray (map JString (path ctx)))))
      else if map_option fc_mode fieldConfig = Some Skip
      then (True, notify (onSkip (options ctx)) (OnSkip fieldPath (JArray (map JString (path ctx)))))
      else (False, []))"

definition applyCustomSanitizer :: "jvalue \<Rightarrow> string \<Rightarrow> (jvalue \<Rightarrow> thrown + jvalue) \<Rightarrow> SanitizationContext \<Rightarrow> jvalue outcome" where
  "applyCustomSanitizer v fieldPath f ctx =
     (case f v of
        Inl t \<Rightarrow> (Inl t, [])
      | Inr sanitized \<Rightarrow>
        (Inr sanitized, notify (onSanitize (options ctx)) (OnSanitize fieldPath v sanitized)))"

definition sanitizeStringValue :: "purifier \<Rightarrow> string \<Rightarrow> string \<Rightarrow> SanitizationMode \<Rightarrow> DOMPurifyConfig option \<Rightarrow> SanitizationContext \<Rightarrow> jvalue outcome" where
  "sanitizeStringValue purify v fieldPath m cfg ctx =
     (let sanitized = sanitizeString purify v m cfg
      in (Inr (JString sanitized),
          if sanitized \<noteq> v
          then notify (onSanitize (options ctx)) (OnSanitize fieldPath (JString v) (JString sanitized))
          else []))"


section \<open>The tree walker\<close>

text \<open>\<^verbatim>\<open>error instanceof Error ? error : new Error(String(error))\<close>.\<close>

definition normalizeError :: "thrown \<Rightarrow> thrown" where
  "normalizeError t = (case t of ErrorObject m \<Rightarrow> ErrorObject m | NonError s \<Rightarrow> ErrorObject s)"

text \<open>
  The \<^verbatim>\<open>catch\<close> block of \<^verbatim>\<open>sanitizeValue\<close>, applied to the outcome of its \<^verbatim>\<open>try\<close> block:
  rethrow under \<^verbatim>\<open>throwOnError\<close>, else call \<^verbatim>\<open>onError\<close> and return the value that came in.
\<close>

definition catchError :: "jvalue \<Rightarrow> string \<Rightarrow> SanitizationContext \<Rightarrow> jvalue outcome \<Rightarrow> jvalue outcome" where
  "catchError v fieldPath ctx r =
     (case r of
        (Inr y, evs) \<Rightarrow> (Inr y, evs)
      | (Inl t, evs) \<Rightarrow>
          (let err = normalizeError t
           in if throwOnError (options ctx) then (Inl err, evs)
              else (Inr v, evs @ notify (onError (options ctx)) (OnError err fieldPath))))"

text \<open>
  The test \<^verbatim>\<open>fieldConfig?.mode === "custom" && fieldConfig.sanitizer\<close>: the function to apply,
  when there is one.
\<close>

definition customSanitizer :: "FieldConfig option \<Rightarrow> (jvalue \<Rightarrow> thrown + jvalue) option" where
  "customSanitizer fieldConfig =
     (case fieldConfig of
        Some fc \<Rightarrow> if fc_mode fc = Custom then fc_sanitizer fc else None
      | None \<Rightarrow> None)"

text \<open>
  \<^verbatim>\<open>fieldConfig?.mode || ctx.options.mode\<close> and \<^verbatim>\<open>fieldConfig?.config || ctx.options.config\<close>.
\<close>

definition resolveMode :: "FieldConfig option \<Rightarrow> SanitizerOptions \<Rightarrow> SanitizationMode" where
  "resolveMode fieldConfig opts = (case fieldConfig of Some fc \<Rightarrow> fc_mode fc | None \<Rightarrow> mode opts)"

definition resolveConfig :: "FieldConfig option \<Rightarrow> SanitizerOptions \<Rightarrow> DOMPurifyConfig option" where
  "resolveConfig fieldConfig opts =
     (case fieldConfig of
        Some fc \<Rightarrow> (case fc_config fc of Some c \<Rightarrow> Some c | None \<Rightarrow> config opts)
      | None \<Rightarrow> config opts)"

text \<open>The error \<^verbatim>\<open>sanitizeObjectValue\<close> builds at the depth bound.\<close>

definition depthError :: "int \<Rightarrow> string \<Rightarrow> thrown" where
  "depthError d fieldPath =
     ErrorObject (''Maximum recursion depth ('' @ stringOfInt d @ '') exceeded at path: '' @ fieldPath)"

text \<open>The calls already made come before those of the rest of the block.\<close>

definition after :: "event list \<Rightarrow> 'a outcome \<Rightarrow> 'a outcome" where
  "after evs r = (fst r, evs @ snd r)"

text \<open>
  The walker. \<^verbatim>\<open>ctx.path.push\<close>/\<^verbatim>\<open>pop\<close> and \<^verbatim>\<open>ctx.currentDepth++\<close>/\<^verbatim>\<open>--\<close> bracket each
  recursive call, so the callee gets the extended context and the caller keeps its own.
  \<open>mapItems\<close> is the callback of \<^verbatim>\<open>value.map\<close> run over the elements, \<open>forEntries\<close> the
  \<^verbatim>\<open>for\<close> loop of \<^verbatim>\<open>sanitizeObjectValue\<close>. A throw ends a loop at once.
\<close>

function (sequential) sanitizeValue :: "purifier \<Rightarrow> jvalue \<Rightarrow> SanitizationContext \<Rightarrow> jvalue outcome"
  and sanitizeArrayValue :: "purifier \<Rightarrow> jvalue list \<Rightarrow> string \<Rightarrow> SanitizationMode \<Rightarrow> DOMPurifyConfig option \<Rightarrow> SanitizationContext \<Rightarrow> jvalue outcome"
  and mapItems :: "purifier \<Rightarrow> jvalue list \<Rightarrow> nat \<Rightarrow> SanitizationContext \<Rightarrow> (jvalue list) outcome"
  and sanitizeObjectValue :: "purifier \<Rightarrow> (string \<times> jvalue) list \<Rightarrow> string \<Rightarrow> SanitizationContext \<Rightarrow> jvalue outcome"
  and forEntries :: "purifier \<Rightarrow> (string \<times> jvalue) list \<Rightarrow> SanitizationContext \<Rightarrow> ((string \<times> jvalue) list) outcome"
where
  "sanitizeValue purify v ctx =
     (let fieldPath = join ''.'' (path ctx)
      in catchError v fieldPath ctx
           (let fieldConfig = getFieldConfig fieldPath (options ctx);
                skip = shouldSkipField fieldPath fieldConfig ctx
            in if fst skip then (Inr v, snd skip)
               else after (snd skip)
                 (case customSanitizer fieldConfig of
                    Some f \<Rightarrow> applyCustomSanitizer v fieldPath f ctx
                  | None \<Rightarrow>
                    (let m = resolveMode fieldConfig (options ctx);
                         cfg = resolveConfig fieldConfig (options ctx)
                     in case v of
                          JString s \<Rightarrow> sanitizeStringValue purify s fieldPath m cfg ctx
                        | JArray xs \<Rightarrow> sanitizeArrayValue purify xs fieldPath m cfg ctx
                        | JObject es \<Rightarrow>
                            if deep (options ctx) then sanitizeObjectValue purify es fieldPath ctx
                            else (Inr v, [])
                        | _ \<Rightarrow> (Inr v, [])))))"
| "sanitizeArrayValue purify xs fieldPath m cfg ctx =
     (if arrays (options ctx) = ArraySkip
      then (Inr (JArray xs), notify (onSkip (options ctx)) (OnSkip fieldPath (JArray xs)))
      else if arrays (options ctx) = ArrayJoin
      then (let joined = arrayJoin '' '' xs;
                sanitized = sanitizeString purify joined m cfg
            in (Inr (JString sanitized),
                notify (onSanitize (options ctx)) (OnSanitize fieldPath (JArray xs) (JString sanitized))))
      else (case mapItems purify xs 0 ctx of
              (Inl t, evs) \<Rightarrow> (Inl t, evs)
            | (Inr ys, evs) \<Rightarrow> (Inr (JArray ys), evs)))"
| "mapItems purify [] index ctx = (Inr [], [])"
| "mapItems purify (item # rest) index ctx =
     (case sanitizeValue purify item (ctx\<lparr>path := path ctx @ [digits index]\<rparr>) of
        (Inl t, evs) \<Rightarrow> (Inl t, evs)
      | (Inr sanitized, evs) \<Rightarrow>
          (case mapItems purify rest (Suc index) ctx of
             (Inl t, evs') \<Rightarrow> (Inl t, evs @ evs')
           | (Inr ys, evs') \<Rightarrow> (Inr (sanitized # ys), evs @ evs')))"
| "sanitizeObjectValue purify es fieldPath ctx =
     (if maxDepth (options ctx) \<le> currentDepth ctx
      then (let error = depthError (maxDepth (options ctx)) fieldPath
            in if throwOnError (options ctx) then (Inl error, [])
               else (Inr (JObject es), notify (onError (options ctx)) (OnError error fieldPath)))
      else (case forEntries purify es ctx of
              (Inl t, evs) \<Rightarrow> (Inl t, evs)
            | (Inr es', evs) \<Rightarrow> (Inr (JObject es'), evs)))"
| "forEntries purify [] ctx = (Inr [], [])"
| "forEntries purify ((key, val) # rest) ctx =
     (case sanitizeValue purify val
             (ctx\<lparr>path := path ctx @ [key], currentDepth := currentDepth ctx + 1\<rparr>) of
        (Inl t, evs) \<Rightarrow> (Inl t, evs)
      | (Inr sanitized, evs) \<Rightarrow>
          (case forEntries purify rest ctx of
             (Inl t, evs') \<Rightarrow> (Inl t, evs @ evs')
           | (Inr es', evs') \<Rightarrow> (Inr ((key, sanitized) # es'), evs @ evs')))"
  by pat_completeness auto
termination
  by (relation "measure (\<lambda>call. case call of
          Inl (Inl (purify, v, ctx)) \<Rightarrow> 2 * size v
        | Inl (Inr (purify, xs, fieldPath, m, cfg, ctx)) \<Rightarrow> 2 * size_list size xs + 1
        | Inr (Inl (purify, xs, index, ctx)) \<Rightarrow> 2 * size_list size xs
        | Inr (Inr (Inl (purify, es, fieldPath, ctx))) \<Rightarrow>
            2 * size_list (size_prod (\<lambda>k. 0) size) es + 1
        | Inr (Inr (Inr (purify, es, ctx))) \<Rightarrow>
            2 * size_list (size_prod (\<lambda>k. 0) size) es)")
     simp_all

declare sanitizeValue.simps [simp del]
declare sanitizeArrayValue.simps [simp del]
declare sanitizeObjectValue.simps [simp del]

text \<open>
  \<^verbatim>\<open>sanitizeTarget\<close>: a fresh context, then every top-level key with its name pushed on
  the path. The depth stays 0 here. The promise it returns is settled with the outcome.
\<close>

fun targetEntries :: "purifier \<Rightarrow> (string \<times> jvalue) list \<Rightarrow> SanitizationContext \<Rightarrow> ((string \<times> jvalue) list) outcome" where
  "targetEntries purify [] ctx = (Inr [], [])"
| "targetEntries purify ((key, v) # rest) ctx =
     (case sanitizeValue purify v (ctx\<lparr>path := path ctx @ [key]\<rparr>) of
        (Inl t, evs) \<Rightarrow> (Inl t, evs)
      | (Inr sanitized, evs) \<Rightarrow>
          (case targetEntries purify rest ctx of
             (Inl t, evs') \<Rightarrow> (Inl t, evs @ evs')
           | (Inr es', evs') \<Rightarrow> (Inr ((key, sanitized) # es'), evs @ evs')))"

definition sanitizeTarget :: "purifier \<Rightarrow> (string \<times> jvalue) list \<Rightarrow> SanitizerOptions \<Rightarrow> ((string \<times> jvalue) list) outcome" where
  "sanitizeTarget purify target opts =
     targetEntries purify target \<lparr>options = opts, currentDepth = 0, path = []\<rparr>"

section \<open>Defaults and a purifier to run examples with\<close>

text \<open>
  \<^verbatim>\<open>DEFAULT_OPTIONS\<close>, the options the middleware merges the caller's options onto. No
  observer is set by default.
\<close>

definition DEFAULT_OPTIONS :: SanitizerOptions where
  "DEFAULT_OPTIONS =
     \<lparr>mode = Strict, whitelist = None, blacklist = None, fields_cfg = None, deep = True,
      maxDepth = 10, arrays = ArrayEach, config = None, onSanitize = False, onSkip = False,
      onError = False, throwOnError = False\<rparr>"

text \<open>
  DOMPurify itself is outside the repository. The examples below run the walker with a
  small stand-in that removes every \<^verbatim>\<open><...>\<close> tag when no tag is allowed and changes nothing
  otherwise.
\<close>

fun dropTags :: "bool \<Rightarrow> string \<Rightarrow> string" where
  "dropTags inTag [] = []"
| "dropTags inTag (c # cs) =
     (if inTag then (if c = CHR ''>'' then dropTags False cs else dropTags True cs)
      else if c = CHR ''<'' then dropTags True cs
      else c # dropTags False cs)"

definition demoPurify :: purifier where
  "demoPurify s cfg = (if ALLOWED_TAGS cfg = Some [] then dropTags False s else s)"

section \<open>Policy resolution as the specification words it\<close>

text \<open>
  The ancestors of a path, deepest first: split the path on the dot and drop trailing
  segments one at a time. The entry that applies to a path is its own entry in \<^verbatim>\<open>fields\<close>
  when there is one, else the entry of the first ancestor that has one.
\<close>

fun ancestorPaths :: "string list \<Rightarrow> string list" where
  "ancestorPaths parts =
     (if length parts \<le> 1 then []
      else join ''.'' (butlast parts) # ancestorPaths (butlast parts))"

declare ancestorPaths.simps [simp del]

definition fieldEntry_spec :: "string \<Rightarrow> SanitizerOptions \<Rightarrow> FieldConfig option" where
  "fieldEntry_spec p opts =
     (case fields_cfg opts of
        None \<Rightarrow> None
      | Some fs \<Rightarrow>
        (case fs p of
           Some fc \<Rightarrow> Some fc
         | None \<Rightarrow>
           (case List.map_filter fs (ancestorPaths (split CHR ''.'' p)) of
              [] \<Rightarrow> None
            | fc # rest \<Rightarrow> Some fc)))"

section \<open>Reaching the dispatch on the type of the value\<close>

text \<open>
  \<open>sanitizeValue\<close> gets as far as its tests on the type of the value when the node is
  neither skipped by \<open>shouldSkipField\<close> nor handed to a custom sanitizer.
\<close>

definition reachesDispatch :: "SanitizationContext \<Rightarrow> bool" where
  "reachesDispatch ctx \<longleftrightarrow>
     (let p = join ''.'' (path ctx); fc = getFieldConfig p (options ctx)
      in \<not> fst (shouldSkipField p fc ctx) \<and> customSanitizer fc = None)"

section \<open>Scope: whitelist and blacklist\<close>

lemma shouldSanitizeField_whitelist:
  assumes "whitelist opts = Some wl" and "wl \<noteq> []"
  shows "shouldSanitizeField p opts \<longleftrightarrow> (\<exists>w \<in> set wl. p = w \<or> prefix (w @ ''.'') p)"
  using assms
  by (cases wl) (simp_all add: shouldSanitizeField_def list_ex_iff matchesPattern_def)

lemma sanitizeValue_out_of_scope:
  assumes "\<not> shouldSanitizeField (join ''.'' (path ctx)) (options ctx)"
  shows "sanitizeValue purify v ctx =
           (Inr v, notify (onSkip (options ctx))
                     (OnSkip (join ''.'' (path ctx)) (JArray (map JString (path ctx)))))"
  using assms by (simp add: sanitizeValue.simps shouldSkipField_def catchError_def Let_def)

text \<open>
  Claim C1. With a non-empty whitelist, a field path is in scope exactly when it equals a
  whitelist entry or starts with an entry followed by a dot; the blacklist plays no part;
  and \<open>sanitizeValue\<close> returns the value of a path that is not in scope as it came,
  whatever the mode, with a call to \<^verbatim>\<open>onSkip\<close> as the only effect.
\<close>

theorem whitelist_scope:
  assumes "whitelist opts = Some wl" and "wl \<noteq> []"
    and "options ctx = opts\<lparr>mode := m, blacklist := bl\<rparr>"
    and "p = join ''.'' (path ctx)"
  shows "(shouldSanitizeField p opts \<longleftrightarrow> (\<exists>w \<in> set wl. p = w \<or> prefix (w @ ''.'') p))
       \<and> shouldSanitizeField p (opts\<lparr>blacklist := bl\<rparr>) = shouldSanitizeField p opts
       \<and> (\<not> (\<exists>w \<in> set wl. p = w \<or> prefix (w @ ''.'') p) \<longrightarrow>
            sanitizeValue purify v ctx =
              (Inr v, notify (onSkip opts) (OnSkip p (JArray (map JString (path ctx))))))"
proof -
  have scope: "shouldSanitizeField p o' \<longleftrightarrow> (\<exists>w \<in> set wl. p = w \<or> prefix (w @ ''.'') p)"
    if "whitelist o' = Some wl" for o'
    using that assms(2) by (rule shouldSanitizeField_whitelist)
  have a: "shouldSanitizeField p opts \<longleftrightarrow> (\<exists>w \<in> set wl. p = w \<or> prefix (w @ ''.'') p)"
    using assms(1) by (rule scope)
  have b: "shouldSanitizeField p (opts\<lparr>blacklist := bl\<rparr>) = shouldSanitizeField p opts"
    using scope [of "opts\<lparr>blacklist := bl\<rparr>"] a assms(1) by simp
  have c: "sanitizeValue purify v ctx =
              (Inr v, notify (onSkip opts) (OnSkip p (JArray (map JString (path ctx)))))"
    if "\<not> (\<exists>w \<in> set wl. p = w \<or> prefix (w @ ''.'') p)"
  proof -
    have "\<not> shouldSanitizeField (join ''.'' (path ctx)) (options ctx)"
      using that scope [of "options ctx"] assms(1,3,4) by simp
    from sanitizeValue_out_of_scope [OF this, of purify v] show ?thesis
      using assms(3,4) by simp
  qed
  from a b c show ?thesis by blast
qed

theorem whitelist_scope_witness:
  "sanitizeValue demoPurify (JString ''<b>John</b>'')
     \<lparr>options = DEFAULT_OPTIONS\<lparr>whitelist := Some [''message''], onSkip := True,
                    mode := Html, blacklist := Some [''other'']\<rparr>,
      currentDepth = 0, path = [''name'']\<rparr>
   = (Inr (JString ''<b>John</b>''), [OnSkip ''name'' (JArray [JString ''name''])])
   \<and> shouldSanitizeField ''message.text''
        (DEFAULT_OPTIONS\<lparr>whitelist := Some [''message''], onSkip := True\<rparr>)"
  using whitelist_scope [where opts = "DEFAULT_OPTIONS\<lparr>whitelist := Some [''message''], onSkip := True\<rparr>"
      and wl = "[''message'']"
      and ctx = "\<lparr>options = DEFAULT_OPTIONS\<lparr>whitelist := Some [''message''], onSkip := True,
                    mode := Html, blacklist := Some [''other'']\<rparr>,
      currentDepth = 0, path = [''name'']\<rparr>" and m = Html and bl = "Some [''other'']"
      and p = "''name''" and purify = demoPurify and v = "JString ''<b>John</b>''"]
    whitelist_scope [where opts = "DEFAULT_OPTIONS\<lparr>whitelist := Some [''message''], onSkip := True\<rparr>"
      and wl = "[''message'']"
      and ctx = "\<lparr>options = DEFAULT_OPTIONS\<lparr>whitelist := Some [''message''], onSkip := True,
                    mode := Strict, blacklist := None\<rparr>,
      currentDepth = 0, path = [''message'', ''text'']\<rparr>" and m = Strict and bl = None
      and p = "''message.text''" and purify = demoPurify and v = JNull]
  by (simp add: DEFAULT_OPTIONS_def notify_def)

section \<open>One step of the walker\<close>

lemma shouldSkipField_events:
  "snd (shouldSkipField p fc ctx) =
     (if fst (shouldSkipField p fc ctx)
      then notify (onSkip (options ctx)) (OnSkip p (JArray (map JString (path ctx))))
      else [])"
  by (simp add: shouldSkipField_def)

lemma shouldSkipField_iff:
  "fst (shouldSkipField p fc ctx) \<longleftrightarrow>
     \<not> shouldSanitizeField p (options ctx) \<or> map_option fc_mode fc = Some Skip"
  by (simp add: shouldSkipField_def)

lemma after_Nil: "after [] r = r"
  by (simp add: after_def)

lemma sanitizeValue_skipped:
  assumes "fst (shouldSkipField (join ''.'' (path ctx))
                  (getFieldConfig (join ''.'' (path ctx)) (options ctx)) ctx)"
  shows "sanitizeValue purify v ctx =
           (Inr v, notify (onSkip (options ctx))
                     (OnSkip (join ''.'' (path ctx)) (JArray (map JString (path ctx)))))"
  using assms shouldSkipField_events [of "join ''.'' (path ctx)" _ ctx]
  by (simp add: sanitizeValue.simps catchError_def Let_def)

lemma sanitizeValue_custom:
  assumes "\<not> fst (shouldSkipField (join ''.'' (path ctx))
                  (getFieldConfig (join ''.'' (path ctx)) (options ctx)) ctx)"
    and "customSanitizer (getFieldConfig (join ''.'' (path ctx)) (options ctx)) = Some f"
  shows "sanitizeValue purify v ctx =
           catchError v (join ''.'' (path ctx)) ctx
             (applyCustomSanitizer v (join ''.'' (path ctx)) f ctx)"
  using assms shouldSkipField_events [of "join ''.'' (path ctx)" _ ctx]
  by (simp add: sanitizeValue.simps Let_def after_Nil)

lemma sanitizeValue_dispatch:
  assumes "\<not> fst (shouldSkipField (join ''.'' (path ctx))
                  (getFieldConfig (join ''.'' (path ctx)) (options ctx)) ctx)"
    and "customSanitizer (getFieldConfig (join ''.'' (path ctx)) (options ctx)) = None"
  shows "sanitizeValue purify v ctx =
           catchError v (join ''.'' (path ctx)) ctx
             (case v of
                JString s \<Rightarrow>
                  sanitizeStringValue purify s (join ''.'' (path ctx))
                    (resolveMode (getFieldConfig (join ''.'' (path ctx)) (options ctx)) (options ctx))
                    (resolveConfig (getFieldConfig (join ''.'' (path ctx)) (options ctx)) (options ctx)) ctx
              | JArray xs \<Rightarrow>
                  sanitizeArrayValue purify xs (join ''.'' (path ctx))
                    (resolveMode (getFieldConfig (join ''.'' (path ctx)) (options ctx)) (options ctx))
                    (resolveConfig (getFieldConfig (join ''.'' (path ctx)) (options ctx)) (options ctx)) ctx
              | JObject es \<Rightarrow>
                  if deep (options ctx)
                  then sanitizeObjectValue purify es (join ''.'' (path ctx)) ctx
                  else (Inr v, [])
              | _ \<Rightarrow> (Inr v, []))"
  using assms shouldSkipField_events [of "join ''.'' (path ctx)" _ ctx]
  by (simp add: sanitizeValue.simps Let_def after_Nil)

lemma catchError_Inr: "catchError v p ctx (Inr y, evs) = (Inr y, evs)"
  by (simp add: catchError_def)

lemma customSanitizer_mode:
  "customSanitizer fc = Some f \<Longrightarrow> resolveMode fc opts = Custom"
  by (auto simp: customSanitizer_def resolveMode_def split: option.splits if_splits)

lemma field_skip_mode:
  "map_option fc_mode fc = Some Skip \<Longrightarrow> resolveMode fc opts = Skip"
  by (auto simp: resolveMode_def split: option.splits)

section \<open>Observer calls of the scalar transformer\<close>

text \<open>
  Claim C7. A string node in scope whose resolved mode is \<open>Strict\<close> (stripAll) or \<open>Html\<close>
  (allowList) is replaced by the purified string, and \<^verbatim>\<open>onSanitize\<close> is called with the path,
  the original and the result exactly when the two strings differ. A node in scope whose
  field entry has mode \<open>Custom\<close> and a function gets the function's result, and
  \<^verbatim>\<open>onSanitize\<close> is called whenever the function returns, also when it returns its argument.
\<close>

theorem onSanitize_when_changed:
  assumes "p = join ''.'' (path ctx)" and "opts = options ctx"
    and "fc = getFieldConfig p opts"
    and "shouldSanitizeField p opts"
  shows "(resolveMode fc opts = Strict \<or> resolveMode fc opts = Html \<longrightarrow>
            sanitizeValue purify (JString s) ctx =
              (let r = sanitizeString purify s (resolveMode fc opts) (resolveConfig fc opts)
               in (Inr (JString r),
                   if r \<noteq> s then notify (onSanitize opts) (OnSanitize p (JString s) (JString r))
                   else [])))
       \<and> (customSanitizer fc = Some f \<and> f v = Inr r' \<longrightarrow>
            sanitizeValue purify v ctx = (Inr r', notify (onSanitize opts) (OnSanitize p v r')))"
proof (intro conjI impI)
  assume m: "resolveMode fc opts = Strict \<or> resolveMode fc opts = Html"
  have ns: "\<not> fst (shouldSkipField p fc ctx)"
    using m assms(2,4) field_skip_mode [of fc opts] by (auto simp: shouldSkipField_iff)
  have nc: "customSanitizer fc = None"
    using m customSanitizer_mode [of fc _ opts] by (cases "customSanitizer fc") auto
  show "sanitizeValue purify (JString s) ctx =
          (let r = sanitizeString purify s (resolveMode fc opts) (resolveConfig fc opts)
           in (Inr (JString r),
               if r \<noteq> s then notify (onSanitize opts) (OnSanitize p (JString s) (JString r))
               else []))"
    using sanitizeValue_dispatch [of ctx purify "JString s"] ns nc assms(1,2,3)
    by (simp add: sanitizeStringValue_def Let_def catchError_Inr)
next
  assume c: "customSanitizer fc = Some f \<and> f v = Inr r'"
  have ns: "\<not> fst (shouldSkipField p fc ctx)"
    using c assms(2,4) customSanitizer_mode [of fc f opts] field_skip_mode [of fc opts]
    by (auto simp: shouldSkipField_iff)
  show "sanitizeValue purify v ctx = (Inr r', notify (onSanitize opts) (OnSanitize p v r'))"
    using sanitizeValue_custom [of ctx f purify v] ns c assms(1,2,3)
    by (simp add: applyCustomSanitizer_def catchError_Inr)
qed

theorem onSanitize_when_changed_witness:
  "sanitizeValue demoPurify (JString ''<b>John</b>'')
     \<lparr>options = DEFAULT_OPTIONS\<lparr>onSanitize := True\<rparr>, currentDepth = 0, path = [''name'']\<rparr>
   = (Inr (JString ''John''), [OnSanitize ''name'' (JString ''<b>John</b>'') (JString ''John'')])
   \<and> sanitizeValue demoPurify (JString ''John'')
     \<lparr>options = DEFAULT_OPTIONS\<lparr>onSanitize := True\<rparr>, currentDepth = 0, path = [''name'']\<rparr>
   = (Inr (JString ''John''), [])
   \<and> sanitizeValue demoPurify (JString ''abc'')
     \<lparr>options = DEFAULT_OPTIONS\<lparr>onSanitize := True,
         fields_cfg := Some [''pwd'' \<mapsto> \<lparr>fc_mode = Custom, fc_config = None, fc_sanitizer = Some Inr\<rparr>]\<rparr>,
      currentDepth = 0, path = [''pwd'']\<rparr>
   = (Inr (JString ''abc''), [OnSanitize ''pwd'' (JString ''abc'') (JString ''abc'')])"
  using
    onSanitize_when_changed [where p = "''name''" and s = "''<b>John</b>''" and purify = demoPurify
      and opts = "DEFAULT_OPTIONS\<lparr>onSanitize := True\<rparr>" and fc = None
      and ctx = "\<lparr>options = DEFAULT_OPTIONS\<lparr>onSanitize := True\<rparr>, currentDepth = 0, path = [''name'']\<rparr>"]
    onSanitize_when_changed [where p = "''name''" and s = "''John''" and purify = demoPurify
      and opts = "DEFAULT_OPTIONS\<lparr>onSanitize := True\<rparr>" and fc = None
      and ctx = "\<lparr>options = DEFAULT_OPTIONS\<lparr>onSanitize := True\<rparr>, currentDepth = 0, path = [''name'']\<rparr>"]
    onSanitize_when_changed [where p = "''pwd''" and v = "JString ''abc''" and r' = "JString ''abc''"
      and f = Inr and purify = demoPurify
      and opts = "DEFAULT_OPTIONS\<lparr>onSanitize := True,
         fields_cfg := Some [''pwd'' \<mapsto> \<lparr>fc_mode = Custom, fc_config = None, fc_sanitizer = Some Inr\<rparr>]\<rparr>"
      and fc = "Some \<lparr>fc_mode = Custom, fc_config = None, fc_sanitizer = Some Inr\<rparr>"
      and ctx = "\<lparr>options = DEFAULT_OPTIONS\<lparr>onSanitize := True,
         fields_cfg := Some [''pwd'' \<mapsto> \<lparr>fc_mode = Custom, fc_config = None, fc_sanitizer = Some Inr\<rparr>]\<rparr>,
      currentDepth = 0, path = [''pwd'']\<rparr>"]
  by (simp add: Let_def DEFAULT_OPTIONS_def notify_def getFieldConfig_def shouldSanitizeField_def
      resolveMode_def resolveConfig_def customSanitizer_def sanitizeString_def demoPurify_def
      stripAllConfig_def)

section \<open>The join array strategy\<close>




section \<open>Skipped nodes\<close>

text \<open>
  Claim C5. The claim says \<^verbatim>\<open>onSkip\<close> gets the field path and the value of the skipped node.
  \<open>shouldSkipField\<close> passes \<^verbatim>\<open>ctx.path\<close> as the second argument: on the body
  \<^verbatim>\<open>{metadata: "<script>keep</script>"}\<close> with \<^verbatim>\<open>blacklist: ["metadata"]\<close> the observer receives
  the array \<^verbatim>\<open>["metadata"]\<close>, not the string. The array strategy \<open>ArraySkip\<close> of
  \<open>sanitizeArrayValue\<close> passes the value.
\<close>

theorem onSkip_gets_path_array:
  "sanitizeTarget demoPurify [(''metadata'', JString ''<script>keep</script>'')]
     (DEFAULT_OPTIONS\<lparr>blacklist := Some [''metadata''], onSkip := True\<rparr>)
   = (Inr [(''metadata'', JString ''<script>keep</script>'')],
      [OnSkip ''metadata'' (JArray [JString ''metadata''])])
   \<and> sanitizeTarget demoPurify [(''secret'', JString ''<b>x</b>'')]
     (DEFAULT_OPTIONS\<lparr>fields_cfg := Some [''secret'' \<mapsto> \<lparr>fc_mode = Skip, fc_config = None, fc_sanitizer = None\<rparr>],
        onSkip := True\<rparr>)
   = (Inr [(''secret'', JString ''<b>x</b>'')],
      [OnSkip ''secret'' (JArray [JString ''secret''])])
   \<and> sanitizeTarget demoPurify [(''tags'', JArray [JString ''<b>x</b>''])]
     (DEFAULT_OPTIONS\<lparr>arrays := ArraySkip, onSkip := True\<rparr>)
   = (Inr [(''tags'', JArray [JString ''<b>x</b>''])],
      [OnSkip ''tags'' (JArray [JString ''<b>x</b>''])])"
  by (simp add: sanitizeTarget_def sanitizeValue.simps sanitizeArrayValue.simps Let_def
      DEFAULT_OPTIONS_def notify_def getFieldConfig_def shouldSkipField_def
      shouldSanitizeField_def matchesPattern_def catchError_def after_def
      customSanitizer_def resolveMode_def resolveConfig_def)




section \<open>Values that are not strings, arrays or plain objects\<close>

text \<open>
  Claim C9, as stated, fails where a field entry with mode \<open>Custom\<close> and a function applies
  to the path: the function is applied to any value, before the type of the value is
  looked at.
\<close>

theorem passthrough_counterexample:
  "fst (sanitizeValue demoPurify (JNumber 5)
       \<lparr>options = DEFAULT_OPTIONS\<lparr>fields_cfg :=
           Some [''price'' \<mapsto> \<lparr>fc_mode = Custom, fc_config = None,
                                fc_sanitizer = Some (\<lambda>v. Inr (JNumber 0))\<rparr>]\<rparr>,
        currentDepth = 0, path = [''price'']\<rparr>) = Inr (JNumber 0)
   \<and> fst (sanitizeValue demoPurify (JNumber 5)
       \<lparr>options = DEFAULT_OPTIONS\<lparr>fields_cfg :=
           Some [''price'' \<mapsto> \<lparr>fc_mode = Custom, fc_config = None,
                                fc_sanitizer = Some (\<lambda>v. Inr (JNumber 0))\<rparr>]\<rparr>,
        currentDepth = 0, path = [''price'']\<rparr>) \<noteq> Inr (JNumber 5)"
  by (simp add: sanitizeValue.simps Let_def
      DEFAULT_OPTIONS_def notify_def getFieldConfig_def shouldSkipField_def
      shouldSanitizeField_def catchError_def after_def applyCustomSanitizer_def
      customSanitizer_def)

text \<open>
  Claim C9, amended. A value that is neither a string, an array nor a plain object is
  returned by \<open>sanitizeValue\<close> as it came, with no \<^verbatim>\<open>onSanitize\<close> call, unless its path is in
  scope and a field entry (exact or inherited) with mode custom and a function applies to
  it. The only observer call is the \<^verbatim>\<open>onSkip\<close> of a skipped node.
\<close>

theorem passthrough_other_values:
  assumes "p = join ''.'' (path ctx)" and "opts = options ctx"
    and "fc = getFieldConfig p opts"
    and "\<forall>s. v \<noteq> JString s" and "\<forall>xs. v \<noteq> JArray xs" and "\<not> isPlainObject v"
    and "\<not> shouldSanitizeField p opts \<or> customSanitizer fc = None"
  shows "sanitizeValue purify v ctx = (Inr v, snd (shouldSkipField p fc ctx))"
proof (cases "fst (shouldSkipField p fc ctx)")
  case True
  then show ?thesis
    using sanitizeValue_skipped [of ctx purify v] assms(1,2,3)
    by (simp add: shouldSkipField_events)
next
  case False
  then have nc: "customSanitizer fc = None"
    using assms(2,7) by (auto simp: shouldSkipField_iff)
  show ?thesis
    using sanitizeValue_dispatch [of ctx purify v] False nc assms(1-6)
    by (cases v) (simp_all add: catchError_Inr shouldSkipField_events isPlainObject_def)
qed

theorem passthrough_other_values_witness:
  "sanitizeValue demoPurify (JNumber 5)
       \<lparr>options = DEFAULT_OPTIONS, currentDepth = 0, path = [''price'']\<rparr>
     = (Inr (JNumber 5), [])
   \<and> sanitizeValue demoPurify JNull
       \<lparr>options = DEFAULT_OPTIONS\<lparr>whitelist := Some [''name''], onSkip := True\<rparr>,
        currentDepth = 0, path = [''price'']\<rparr>
     = (Inr JNull, [OnSkip ''price'' (JArray [JString ''price''])])"
  using
    passthrough_other_values [where p = "''price''" and purify = demoPurify and v = "JNumber 5"
      and opts = DEFAULT_OPTIONS and fc = None
      and ctx = "\<lparr>options = DEFAULT_OPTIONS, currentDepth = 0, path = [''price'']\<rparr>"]
    passthrough_other_values [where p = "''price''" and purify = demoPurify and v = JNull
      and opts = "DEFAULT_OPTIONS\<lparr>whitelist := Some [''name''], onSkip := True\<rparr>" and fc = None
      and ctx = "\<lparr>options = DEFAULT_OPTIONS\<lparr>whitelist := Some [''name''], onSkip := True\<rparr>,
        currentDepth = 0, path = [''price'']\<rparr>"]
  by (simp add: DEFAULT_OPTIONS_def notify_def getFieldConfig_def shouldSanitizeField_def
      isPlainObject_def shouldSkipField_def customSanitizer_def matchesPattern_def)

section \<open>A whitelist of nested paths only\<close>






section \<open>Policy resolution\<close>

lemma split_not_Nil: "split c s \<noteq> []"
  by (induction s) (auto split: list.splits)

lemma join_Cons_char: "join sep ((x # q) # qs) = x # join sep (q # qs)"
  by (cases qs) simp_all

lemma join_split: "join [c] (split c s) = s"
proof (induction s)
  case Nil
  show ?case by simp
next
  case (Cons x xs)
  obtain q qs where q: "split c xs = q # qs"
    using split_not_Nil [of c xs] by (cases "split c xs") auto
  show ?case
  proof (cases "x = c")
    case True
    then show ?thesis using Cons q by simp
  next
    case False
    then show ?thesis
      using Cons q by (simp add: join_Cons_char)
  qed
qed

lemma join_butlast:
  "2 \<le> length parts \<Longrightarrow> join sep parts = join sep (butlast parts) @ sep @ last parts"
proof (induction sep parts rule: join.induct)
  case (3 sep x y ys)
  show ?case
  proof (cases ys)
    case Nil
    then show ?thesis by simp
  next
    case (Cons z zs)
    then have "join sep (y # ys) = join sep (butlast (y # ys)) @ sep @ last (y # ys)"
      using "3.IH" by simp
    then show ?thesis using Cons by simp
  qed
qed simp_all

lemma ancestorPaths_prefix:
  "a \<in> set (ancestorPaths parts) \<Longrightarrow> prefix (a @ ''.'') (join ''.'' parts)"
proof (induction parts rule: ancestorPaths.induct)
  case (1 parts)
  show ?case
  proof (cases "length parts \<le> 1")
    case True
    then show ?thesis using "1.prems" by (simp add: ancestorPaths.simps [of parts])
  next
    case False
    then have j: "join ''.'' parts = join ''.'' (butlast parts) @ ''.'' @ last parts"
      by (intro join_butlast) simp
    from "1.prems" False
    consider "a = join ''.'' (butlast parts)" | "a \<in> set (ancestorPaths (butlast parts))"
      by (auto simp: ancestorPaths.simps [of parts])
    then show ?thesis
    proof cases
      case 1
      then show ?thesis using j by (simp add: prefix_def)
    next
      case 2
      then have "prefix (a @ ''.'') (join ''.'' (butlast parts))"
        using "1.IH" False by simp
      moreover have "prefix (join ''.'' (butlast parts)) (join ''.'' parts)"
        using j by (simp add: prefix_def)
      ultimately show ?thesis by (rule prefix_order.trans)
    qed
  qed
qed

lemma ancestorPaths_deepest_first:
  "sorted_wrt (\<lambda>a b. prefix (b @ ''.'') a) (ancestorPaths parts)"
proof (induction parts rule: ancestorPaths.induct)
  case (1 parts)
  show ?case
  proof (cases "length parts \<le> 1")
    case True
    then show ?thesis by (simp add: ancestorPaths.simps [of parts])
  next
    case False
    then show ?thesis
      using "1.IH" ancestorPaths_prefix [of _ "butlast parts"]
      by (simp add: ancestorPaths.simps [of parts])
  qed
qed

lemma parentLoop_ancestors:
  "i < length parts \<Longrightarrow>
     parentLoop fs parts i =
       (case List.map_filter fs (ancestorPaths (take (Suc i) parts)) of
          [] \<Rightarrow> None
        | fc # rest \<Rightarrow> Some fc)"
proof (induction i)
  case 0
  then show ?case
    by (simp add: ancestorPaths.simps [of "take (Suc 0) parts"])
next
  case (Suc j)
  have b: "butlast (take (Suc (Suc j)) parts) = take (Suc j) parts"
    using Suc.prems by (simp add: butlast_take)
  have l: "\<not> length (take (Suc (Suc j)) parts) \<le> 1"
    using Suc.prems by simp
  have a: "ancestorPaths (take (Suc (Suc j)) parts) =
             join ''.'' (take (Suc j) parts) # ancestorPaths (take (Suc j) parts)"
    using l b by (simp add: ancestorPaths.simps [of "take (Suc (Suc j)) parts"])
  show ?case
    using Suc.IH Suc.prems
    by (simp add: a split: option.splits)
qed

lemma getFieldConfig_refines: "getFieldConfig p opts = fieldEntry_spec p opts"
proof -
  have "parentLoop fs (split CHR ''.'' p) (length (split CHR ''.'' p) - 1) =
          (case List.map_filter fs (ancestorPaths (split CHR ''.'' p)) of
             [] \<Rightarrow> None
           | fc # rest \<Rightarrow> Some fc)" for fs
    using parentLoop_ancestors [of "length (split CHR ''.'' p) - 1" "split CHR ''.'' p" fs]
      split_not_Nil [of "CHR ''.''" p]
    by (simp add: Suc_diff_1 [OF length_greater_0_conv [THEN iffD2]])
  then show ?thesis
    by (simp add: getFieldConfig_def fieldEntry_spec_def Let_def split: option.splits)
qed

text \<open>
  Claim C2. \<open>getFieldConfig\<close> returns the entry of the exact path when \<^verbatim>\<open>fields\<close> has one,
  whatever entries the ancestors have; otherwise the entry of the nearest ancestor that
  has one, the ancestors being the dotted prefixes of the path taken from the deepest to
  the shallowest; and when it finds none, the mode and the DOMPurify settings resolved by
  \<open>sanitizeValue\<close> are the global ones.
\<close>

theorem policy_resolution:
  "getFieldConfig p opts = fieldEntry_spec p opts
   \<and> (fields_cfg opts = Some fs \<and> fs p = Some fc \<longrightarrow> getFieldConfig p opts = Some fc)
   \<and> (\<forall>a \<in> set (ancestorPaths (split CHR ''.'' p)). prefix (a @ ''.'') p)
   \<and> sorted_wrt (\<lambda>a b. prefix (b @ ''.'') a) (ancestorPaths (split CHR ''.'' p))
   \<and> (getFieldConfig p opts = None \<longrightarrow>
        resolveMode (getFieldConfig p opts) opts = mode opts
        \<and> resolveConfig (getFieldConfig p opts) opts = config opts)"
proof -
  have "prefix (a @ ''.'') p" if "a \<in> set (ancestorPaths (split CHR ''.'' p))" for a
    using ancestorPaths_prefix [OF that] join_split [of "CHR ''.''" p] by simp
  then show ?thesis
    using getFieldConfig_refines [of p opts] ancestorPaths_deepest_first
    by (auto simp: getFieldConfig_def resolveMode_def resolveConfig_def)
qed

theorem policy_resolution_witness:
  "getFieldConfig ''user.profile.bio''
     (DEFAULT_OPTIONS\<lparr>fields_cfg := Some [''user'' \<mapsto> \<lparr>fc_mode = Skip, fc_config = None, fc_sanitizer = None\<rparr>,
         ''user.profile'' \<mapsto> \<lparr>fc_mode = Html, fc_config = None, fc_sanitizer = None\<rparr>]\<rparr>)
   = Some \<lparr>fc_mode = Html, fc_config = None, fc_sanitizer = None\<rparr>
   \<and> getFieldConfig ''user.profile''
     (DEFAULT_OPTIONS\<lparr>fields_cfg := Some [''user'' \<mapsto> \<lparr>fc_mode = Skip, fc_config = None, fc_sanitizer = None\<rparr>,
         ''user.profile'' \<mapsto> \<lparr>fc_mode = Html, fc_config = None, fc_sanitizer = None\<rparr>]\<rparr>)
   = Some \<lparr>fc_mode = Html, fc_config = None, fc_sanitizer = None\<rparr>
   \<and> prefix ''user.profile.'' ''user.profile.bio'' \<and> prefix ''user.'' ''user.profile.bio''
   \<and> resolveMode (getFieldConfig ''other''
        (DEFAULT_OPTIONS\<lparr>fields_cfg := Some [''user'' \<mapsto> \<lparr>fc_mode = Skip, fc_config = None, fc_sanitizer = None\<rparr>]\<rparr>))
        (DEFAULT_OPTIONS\<lparr>fields_cfg := Some [''user'' \<mapsto> \<lparr>fc_mode = Skip, fc_config = None, fc_sanitizer = None\<rparr>]\<rparr>)
     = Strict"
  using
    policy_resolution [where p = "''user.profile.bio''"
      and opts = "DEFAULT_OPTIONS\<lparr>fields_cfg := Some [''user'' \<mapsto> \<lparr>fc_mode = Skip, fc_config = None, fc_sanitizer = None\<rparr>,
         ''user.profile'' \<mapsto> \<lparr>fc_mode = Html, fc_config = None, fc_sanitizer = None\<rparr>]\<rparr>"]
    policy_resolution [where p = "''user.profile''"
      and opts = "DEFAULT_OPTIONS\<lparr>fields_cfg := Some [''user'' \<mapsto> \<lparr>fc_mode = Skip, fc_config = None, fc_sanitizer = None\<rparr>,
         ''user.profile'' \<mapsto> \<lparr>fc_mode = Html, fc_config = None, fc_sanitizer = None\<rparr>]\<rparr>"
      and fs = "[''user'' \<mapsto> \<lparr>fc_mode = Skip, fc_config = None, fc_sanitizer = None\<rparr>,
         ''user.profile'' \<mapsto> \<lparr>fc_mode = Html, fc_config = None, fc_sanitizer = None\<rparr>]"
      and fc = "\<lparr>fc_mode = Html, fc_config = None, fc_sanitizer = None\<rparr>"]
    policy_resolution [where p = "''other''"
      and opts = "DEFAULT_OPTIONS\<lparr>fields_cfg := Some [''user'' \<mapsto> \<lparr>fc_mode = Skip, fc_config = None, fc_sanitizer = None\<rparr>]\<rparr>"]
  by (simp add: DEFAULT_OPTIONS_def fieldEntry_spec_def ancestorPaths.simps resolveMode_def)

section \<open>Error containment and propagation\<close>

lemma normalizeError_idem: "normalizeError (normalizeError t) = normalizeError t"
  by (cases t) (simp_all add: normalizeError_def)

lemma catchError_contained:
  assumes "\<not> throwOnError (options ctx)"
  shows "\<exists>y evs. catchError v p ctx r = (Inr y, evs)"
proof (cases r)
  case (Pair res evs)
  then show ?thesis
    using assms by (cases res) (simp_all add: catchError_def Let_def)
qed

lemma catchError_rethrow:
  assumes "throwOnError (options ctx)"
  shows "catchError v p ctx (Inl t, evs) = (Inl (normalizeError t), evs)"
  using assms by (simp add: catchError_def Let_def)

lemma catchError_Inl:
  assumes "catchError v p ctx r = (Inl e, evs)"
  shows "throwOnError (options ctx) \<and> normalizeError e = e"
proof (cases r)
  case (Pair res evs')
  then show ?thesis
    using assms
    by (cases res) (auto simp: catchError_def Let_def normalizeError_idem split: if_splits)
qed

lemma sanitizeValue_contained:
  assumes "\<not> throwOnError (options ctx)"
  shows "\<exists>y evs. sanitizeValue purify v ctx = (Inr y, evs)"
  unfolding sanitizeValue.simps [of purify v ctx] Let_def
  using assms by (rule catchError_contained)

lemma sanitizeValue_Inl:
  assumes "sanitizeValue purify v ctx = (Inl e, evs)"
  shows "throwOnError (options ctx) \<and> normalizeError e = e"
  using assms unfolding sanitizeValue.simps [of purify v ctx] Let_def
  by (rule catchError_Inl)

lemma forEntries_contained:
  assumes "\<not> throwOnError (options ctx)"
  shows "\<exists>out evs. forEntries purify es ctx = (Inr out, evs) \<and>
           list_all2 (\<lambda>(k, x) (k', y). k' = k \<and>
               fst (sanitizeValue purify x
                      (ctx\<lparr>path := path ctx @ [k], currentDepth := currentDepth ctx + 1\<rparr>)) = Inr y)
             es out"
proof (induction es)
  case Nil
  show ?case by simp
next
  case (Cons e rest)
  obtain k x where e: "e = (k, x)" by (cases e)
  obtain y evs1 where y: "sanitizeValue purify x
      (ctx\<lparr>path := path ctx @ [k], currentDepth := currentDepth ctx + 1\<rparr>) = (Inr y, evs1)"
    using sanitizeValue_contained [of "ctx\<lparr>path := path ctx @ [k], currentDepth := currentDepth ctx + 1\<rparr>" purify x]
      assms by auto
  from Cons.IH obtain out evs2 where r: "forEntries purify rest ctx = (Inr out, evs2)"
    and a: "list_all2 (\<lambda>(k, x) (k', y). k' = k \<and>
               fst (sanitizeValue purify x
                      (ctx\<lparr>path := path ctx @ [k], currentDepth := currentDepth ctx + 1\<rparr>)) = Inr y)
             rest out"
    by blast
  have "forEntries purify (e # rest) ctx = (Inr ((k, y) # out), evs1 @ evs2)"
    using e y r by simp
  moreover have "list_all2 (\<lambda>(k, x) (k', y). k' = k \<and>
               fst (sanitizeValue purify x
                      (ctx\<lparr>path := path ctx @ [k], currentDepth := currentDepth ctx + 1\<rparr>)) = Inr y)
             (e # rest) ((k, y) # out)"
    using e y a by simp
  ultimately show ?case by blast
qed

lemma targetEntries_contained:
  assumes "\<not> throwOnError (options ctx)"
  shows "\<exists>out evs. targetEntries purify es ctx = (Inr out, evs) \<and>
           list_all2 (\<lambda>(k, x) (k', y). k' = k \<and>
               fst (sanitizeValue purify x (ctx\<lparr>path := path ctx @ [k]\<rparr>)) = Inr y)
             es out"
proof (induction es)
  case Nil
  show ?case by simp
next
  case (Cons e rest)
  obtain k x where e: "e = (k, x)" by (cases e)
  obtain y evs1 where y: "sanitizeValue purify x (ctx\<lparr>path := path ctx @ [k]\<rparr>) = (Inr y, evs1)"
    using sanitizeValue_contained [of "ctx\<lparr>path := path ctx @ [k]\<rparr>" purify x] assms by auto
  from Cons.IH obtain out evs2 where r: "targetEntries purify rest ctx = (Inr out, evs2)"
    and a: "list_all2 (\<lambda>(k, x) (k', y). k' = k \<and>
               fst (sanitizeValue purify x (ctx\<lparr>path := path ctx @ [k]\<rparr>)) = Inr y)
             rest out"
    by blast
  have "targetEntries purify (e # rest) ctx = (Inr ((k, y) # out), evs1 @ evs2)"
    using e y r by simp
  moreover have "list_all2 (\<lambda>(k, x) (k', y). k' = k \<and>
               fst (sanitizeValue purify x (ctx\<lparr>path := path ctx @ [k]\<rparr>)) = Inr y)
             (e # rest) ((k, y) # out)"
    using e y a by simp
  ultimately show ?case by blast
qed

lemma mapItems_contained:
  assumes "\<not> throwOnError (options ctx)"
  shows "\<exists>out evs. mapItems purify xs n ctx = (Inr out, evs) \<and> length out = length xs \<and>
           (\<forall>i < length xs.
               fst (sanitizeValue purify (xs ! i) (ctx\<lparr>path := path ctx @ [digits (n + i)]\<rparr>))
                 = Inr (out ! i))"
proof (induction xs arbitrary: n)
  case Nil
  show ?case by simp
next
  case (Cons x rest)
  obtain y evs1 where y: "sanitizeValue purify x (ctx\<lparr>path := path ctx @ [digits n]\<rparr>) = (Inr y, evs1)"
    using sanitizeValue_contained [of "ctx\<lparr>path := path ctx @ [digits n]\<rparr>" purify x] assms by auto
  from Cons.IH [of "Suc n"] obtain out evs2
    where r: "mapItems purify rest (Suc n) ctx = (Inr out, evs2)" and l: "length out = length rest"
      and a: "\<forall>i < length rest.
               fst (sanitizeValue purify (rest ! i) (ctx\<lparr>path := path ctx @ [digits (Suc n + i)]\<rparr>))
                 = Inr (out ! i)"
    by blast
  have "mapItems purify (x # rest) n ctx = (Inr (y # out), evs1 @ evs2)"
    using y r by simp
  moreover have "\<forall>i < length (x # rest).
               fst (sanitizeValue purify ((x # rest) ! i) (ctx\<lparr>path := path ctx @ [digits (n + i)]\<rparr>))
                 = Inr ((y # out) ! i)"
  proof (intro allI impI)
    fix i assume "i < length (x # rest)"
    then show "fst (sanitizeValue purify ((x # rest) ! i) (ctx\<lparr>path := path ctx @ [digits (n + i)]\<rparr>))
                 = Inr ((y # out) ! i)"
      using y a by (cases i) simp_all
  qed
  ultimately show ?case using l by auto
qed

lemma forEntries_Inl:
  "forEntries purify es ctx = (Inl e, evs) \<Longrightarrow> normalizeError e = e"
proof (induction es arbitrary: evs)
  case Nil
  then show ?case by simp
next
  case (Cons a rest)
  obtain k x where a: "a = (k, x)" by (cases a)
  obtain r1 evs1 where h: "sanitizeValue purify x
      (ctx\<lparr>path := path ctx @ [k], currentDepth := currentDepth ctx + 1\<rparr>) = (r1, evs1)"
    by (cases "sanitizeValue purify x
      (ctx\<lparr>path := path ctx @ [k], currentDepth := currentDepth ctx + 1\<rparr>)")
  show ?case
  proof (cases r1)
    case (Inl t)
    then have "t = e" using Cons.prems a h by simp
    then show ?thesis using sanitizeValue_Inl h Inl by blast
  next
    case (Inr y)
    obtain r2 evs2 where t: "forEntries purify rest ctx = (r2, evs2)"
      by (cases "forEntries purify rest ctx")
    then have "r2 = Inl e"
      using Cons.prems a h Inr by (cases r2) simp_all
    then show ?thesis using Cons.IH t by simp
  qed
qed

lemma mapItems_Inl:
  "mapItems purify xs n ctx = (Inl e, evs) \<Longrightarrow> normalizeError e = e"
proof (induction xs arbitrary: n evs)
  case Nil
  then show ?case by simp
next
  case (Cons x rest)
  obtain r1 evs1 where h: "sanitizeValue purify x (ctx\<lparr>path := path ctx @ [digits n]\<rparr>) = (r1, evs1)"
    by (cases "sanitizeValue purify x (ctx\<lparr>path := path ctx @ [digits n]\<rparr>)")
  show ?case
  proof (cases r1)
    case (Inl t)
    then have "t = e" using Cons.prems h by simp
    then show ?thesis using sanitizeValue_Inl h Inl by blast
  next
    case (Inr y)
    obtain r2 evs2 where t: "mapItems purify rest (Suc n) ctx = (r2, evs2)"
      by (cases "mapItems purify rest (Suc n) ctx")
    then have "r2 = Inl e"
      using Cons.prems h Inr by (cases r2) simp_all
    then show ?thesis using Cons.IH t by simp
  qed
qed

lemma targetEntries_first_throw:
  assumes "\<forall>(k', x') \<in> set pre. \<not> isl (fst (sanitizeValue purify x' (ctx\<lparr>path := path ctx @ [k']\<rparr>)))"
    and "fst (sanitizeValue purify x (ctx\<lparr>path := path ctx @ [k]\<rparr>)) = Inl e"
  shows "fst (targetEntries purify (pre @ (k, x) # post) ctx) = Inl e"
  using assms(1)
proof (induction pre)
  case Nil
  obtain evs where "sanitizeValue purify x (ctx\<lparr>path := path ctx @ [k]\<rparr>) = (Inl e, evs)"
    using assms(2) by (cases "sanitizeValue purify x (ctx\<lparr>path := path ctx @ [k]\<rparr>)") simp
  then show ?case by simp
next
  case (Cons a pre)
  obtain k' x' where a: "a = (k', x')" by (cases a)
  obtain y evs1 where h: "sanitizeValue purify x' (ctx\<lparr>path := path ctx @ [k']\<rparr>) = (Inr y, evs1)"
    using Cons.prems a
    by (cases "sanitizeValue purify x' (ctx\<lparr>path := path ctx @ [k']\<rparr>)";
        cases "fst (sanitizeValue purify x' (ctx\<lparr>path := path ctx @ [k']\<rparr>))") auto
  obtain evs2 where "targetEntries purify (pre @ (k, x) # post) ctx = (Inl e, evs2)"
    using Cons.IH Cons.prems by (cases "targetEntries purify (pre @ (k, x) # post) ctx") simp
  then show ?case using a h by simp
qed

lemma forEntries_first_throw:
  assumes "\<forall>(k', x') \<in> set pre. \<not> isl (fst (sanitizeValue purify x'
              (ctx\<lparr>path := path ctx @ [k'], currentDepth := currentDepth ctx + 1\<rparr>)))"
    and "fst (sanitizeValue purify x
              (ctx\<lparr>path := path ctx @ [k], currentDepth := currentDepth ctx + 1\<rparr>)) = Inl e"
  shows "fst (forEntries purify (pre @ (k, x) # post) ctx) = Inl e"
  using assms(1)
proof (induction pre)
  case Nil
  obtain evs where "sanitizeValue purify x
      (ctx\<lparr>path := path ctx @ [k], currentDepth := currentDepth ctx + 1\<rparr>) = (Inl e, evs)"
    using assms(2)
    by (cases "sanitizeValue purify x
      (ctx\<lparr>path := path ctx @ [k], currentDepth := currentDepth ctx + 1\<rparr>)") simp
  then show ?case by simp
next
  case (Cons a pre)
  obtain k' x' where a: "a = (k', x')" by (cases a)
  obtain y evs1 where h: "sanitizeValue purify x'
      (ctx\<lparr>path := path ctx @ [k'], currentDepth := currentDepth ctx + 1\<rparr>) = (Inr y, evs1)"
    using Cons.prems a
    by (cases "sanitizeValue purify x'
          (ctx\<lparr>path := path ctx @ [k'], currentDepth := currentDepth ctx + 1\<rparr>)";
        cases "fst (sanitizeValue purify x'
          (ctx\<lparr>path := path ctx @ [k'], currentDepth := currentDepth ctx + 1\<rparr>))") auto
  obtain evs2 where "forEntries purify (pre @ (k, x) # post) ctx = (Inl e, evs2)"
    using Cons.IH Cons.prems by (cases "forEntries purify (pre @ (k, x) # post) ctx") simp
  then show ?case using a h by simp
qed

lemma mapItems_first_throw:
  assumes "\<forall>i < length pre. \<not> isl (fst (sanitizeValue purify (pre ! i)
              (ctx\<lparr>path := path ctx @ [digits (n + i)]\<rparr>)))"
    and "fst (sanitizeValue purify x
              (ctx\<lparr>path := path ctx @ [digits (n + length pre)]\<rparr>)) = Inl e"
  shows "fst (mapItems purify (pre @ x # post) n ctx) = Inl e"
  using assms
proof (induction pre arbitrary: n)
  case Nil
  obtain evs where "sanitizeValue purify x (ctx\<lparr>path := path ctx @ [digits n]\<rparr>) = (Inl e, evs)"
    using Nil.prems(2)
    by (cases "sanitizeValue purify x (ctx\<lparr>path := path ctx @ [digits n]\<rparr>)") simp
  then show ?case by simp
next
  case (Cons a pre)
  have "\<not> isl (fst (sanitizeValue purify a (ctx\<lparr>path := path ctx @ [digits n]\<rparr>)))"
    using Cons.prems(1) by (auto dest: spec [of _ 0])
  then obtain y evs1 where h: "sanitizeValue purify a (ctx\<lparr>path := path ctx @ [digits n]\<rparr>) = (Inr y, evs1)"
    by (cases "sanitizeValue purify a (ctx\<lparr>path := path ctx @ [digits n]\<rparr>)";
        cases "fst (sanitizeValue purify a (ctx\<lparr>path := path ctx @ [digits n]\<rparr>))") auto
  have "\<forall>i < length pre. \<not> isl (fst (sanitizeValue purify (pre ! i)
              (ctx\<lparr>path := path ctx @ [digits (Suc n + i)]\<rparr>)))"
    using Cons.prems(1) by (auto dest: spec [of _ "Suc i" for i])
  moreover have "fst (sanitizeValue purify x
              (ctx\<lparr>path := path ctx @ [digits (Suc n + length pre)]\<rparr>)) = Inl e"
    using Cons.prems(2) by simp
  ultimately have "fst (mapItems purify (pre @ x # post) (Suc n) ctx) = Inl e"
    by (rule Cons.IH)
  then obtain evs2 where "mapItems purify (pre @ x # post) (Suc n) ctx = (Inl e, evs2)"
    by (cases "mapItems purify (pre @ x # post) (Suc n) ctx") simp
  then show ?case using h by simp
qed

lemma object_rethrows:
  assumes "throwOnError (options ctx)" and "reachesDispatch ctx" and "deep (options ctx)"
    and "currentDepth ctx < maxDepth (options ctx)"
    and "fst (forEntries purify es ctx) = Inl e"
  shows "fst (sanitizeValue purify (JObject es) ctx) = Inl e"
proof -
  obtain evs where f: "forEntries purify es ctx = (Inl e, evs)"
    using assms(5) by (cases "forEntries purify es ctx") simp
  then have "sanitizeObjectValue purify es (join ''.'' (path ctx)) ctx = (Inl e, evs)"
    using assms(4) by (simp add: sanitizeObjectValue.simps)
  then have "sanitizeValue purify (JObject es) ctx = (Inl (normalizeError e), evs)"
    using sanitizeValue_dispatch [of ctx purify "JObject es"] assms(1,2,3)
    by (simp add: reachesDispatch_def Let_def catchError_rethrow)
  then show ?thesis using forEntries_Inl [OF f] by simp
qed

lemma array_rethrows:
  assumes "throwOnError (options ctx)" and "reachesDispatch ctx"
    and "arrays (options ctx) = ArrayEach"
    and "fst (mapItems purify xs 0 ctx) = Inl e"
  shows "fst (sanitizeValue purify (JArray xs) ctx) = Inl e"
proof -
  obtain evs where f: "mapItems purify xs 0 ctx = (Inl e, evs)"
    using assms(4) by (cases "mapItems purify xs 0 ctx") simp
  then have "sanitizeArrayValue purify xs fp m cfg ctx = (Inl e, evs)" for fp m cfg
    using assms(3) by (simp add: sanitizeArrayValue.simps)
  then have "sanitizeValue purify (JArray xs) ctx = (Inl (normalizeError e), evs)"
    using sanitizeValue_dispatch [of ctx purify "JArray xs"] assms(1,2)
    by (simp add: reachesDispatch_def Let_def catchError_rethrow)
  then show ?thesis using mapItems_Inl [OF f] by simp
qed

lemma sanitizeTarget_contained:
  assumes "\<not> throwOnError opts"
  shows "\<exists>out evs. sanitizeTarget purify target opts = (Inr out, evs) \<and>
           list_all2 (\<lambda>(k, x) (k', y). k' = k \<and>
               fst (sanitizeValue purify x \<lparr>options = opts, currentDepth = 0, path = [k]\<rparr>) = Inr y)
             target out"
  using targetEntries_contained
    [of "\<lparr>options = opts, currentDepth = 0, path = []\<rparr>" purify target] assms
  by (simp add: sanitizeTarget_def)



text \<open>
  Claim C4. When the custom sanitizer of a node in scope throws: with \<^verbatim>\<open>throwOnError\<close> off,
  \<open>sanitizeValue\<close> returns the node's own value and \<^verbatim>\<open>onError\<close> receives the error with the
  node's path, and every loop over object entries, array elements or top-level keys
  returns a result in which each sibling is what \<open>sanitizeValue\<close> makes of it alone. With
  \<^verbatim>\<open>throwOnError\<close> on, \<open>sanitizeValue\<close> throws the error; a loop throws the error of its
  first throwing element; an object or array node throws what its loop throws; and so
  \<open>sanitizeTarget\<close> throws it and returns no result.
\<close>

theorem custom_sanitizer_throws:
  assumes "p = join ''.'' (path ctx)" and "opts = options ctx"
    and "shouldSanitizeField p opts"
    and "customSanitizer (getFieldConfig p opts) = Some f" and "f v = Inl t"
  shows "sanitizeValue purify v ctx =
           (if throwOnError opts then (Inl (normalizeError t), [])
            else (Inr v, notify (onError opts) (OnError (normalizeError t) p)))
       \<and> (\<not> throwOnError opts \<longrightarrow>
            (\<forall>es c. options c = opts \<longrightarrow>
               (\<exists>out evs. forEntries purify es c = (Inr out, evs) \<and>
                  list_all2 (\<lambda>(k, x) (k', y). k' = k \<and>
                      fst (sanitizeValue purify x
                             (c\<lparr>path := path c @ [k], currentDepth := currentDepth c + 1\<rparr>)) = Inr y)
                    es out))
          \<and> (\<forall>xs c. options c = opts \<longrightarrow>
               (\<exists>out evs. mapItems purify xs 0 c = (Inr out, evs) \<and> length out = length xs \<and>
                  (\<forall>i < length xs.
                      fst (sanitizeValue purify (xs ! i) (c\<lparr>path := path c @ [digits i]\<rparr>))
                        = Inr (out ! i))))
          \<and> (\<forall>target. \<exists>out evs. sanitizeTarget purify target opts = (Inr out, evs) \<and>
                list_all2 (\<lambda>(k, x) (k', y). k' = k \<and>
                    fst (sanitizeValue purify x \<lparr>options = opts, currentDepth = 0, path = [k]\<rparr>) = Inr y)
                  target out))
       \<and> (throwOnError opts \<longrightarrow>
            (\<forall>pre k x post e.
               (\<forall>(k', x') \<in> set pre. \<not> isl (fst (sanitizeValue purify x'
                    \<lparr>options = opts, currentDepth = 0, path = [k']\<rparr>)))
               \<and> fst (sanitizeValue purify x \<lparr>options = opts, currentDepth = 0, path = [k]\<rparr>) = Inl e
               \<longrightarrow> fst (sanitizeTarget purify (pre @ (k, x) # post) opts) = Inl e)
          \<and> (\<forall>c pre k x post e. options c = opts \<and> reachesDispatch c \<and> deep opts
               \<and> currentDepth c < maxDepth opts
               \<and> (\<forall>(k', x') \<in> set pre. \<not> isl (fst (sanitizeValue purify x'
                    (c\<lparr>path := path c @ [k'], currentDepth := currentDepth c + 1\<rparr>))))
               \<and> fst (sanitizeValue purify x
                    (c\<lparr>path := path c @ [k], currentDepth := currentDepth c + 1\<rparr>)) = Inl e
               \<longrightarrow> fst (sanitizeValue purify (JObject (pre @ (k, x) # post)) c) = Inl e)
          \<and> (\<forall>c pre x post e. options c = opts \<and> reachesDispatch c \<and> arrays opts = ArrayEach
               \<and> (\<forall>i < length pre. \<not> isl (fst (sanitizeValue purify (pre ! i)
                    (c\<lparr>path := path c @ [digits i]\<rparr>))))
               \<and> fst (sanitizeValue purify x (c\<lparr>path := path c @ [digits (length pre)]\<rparr>)) = Inl e
               \<longrightarrow> fst (sanitizeValue purify (JArray (pre @ x # post)) c) = Inl e))"
proof (intro conjI impI allI)
  have ns: "\<not> fst (shouldSkipField p (getFieldConfig p opts) ctx)"
    using assms(2,3,4) customSanitizer_mode [of "getFieldConfig p opts" f opts]
      field_skip_mode [of "getFieldConfig p opts" opts]
    by (auto simp: shouldSkipField_iff)
  show "sanitizeValue purify v ctx =
           (if throwOnError opts then (Inl (normalizeError t), [])
            else (Inr v, notify (onError opts) (OnError (normalizeError t) p)))"
    using sanitizeValue_custom [of ctx f purify v] ns assms(1,2,4,5)
    by (simp add: applyCustomSanitizer_def catchError_def Let_def)
next
  fix es and c :: SanitizationContext assume "\<not> throwOnError opts" and "options c = opts"
  then show "\<exists>out evs. forEntries purify es c = (Inr out, evs) \<and>
                  list_all2 (\<lambda>(k, x) (k', y). k' = k \<and>
                      fst (sanitizeValue purify x
                             (c\<lparr>path := path c @ [k], currentDepth := currentDepth c + 1\<rparr>)) = Inr y)
                    es out"
    using forEntries_contained [of c purify es] by simp
next
  fix xs and c :: SanitizationContext assume "\<not> throwOnError opts" and "options c = opts"
  then show "\<exists>out evs. mapItems purify xs 0 c = (Inr out, evs) \<and> length out = length xs \<and>
                  (\<forall>i < length xs.
                      fst (sanitizeValue purify (xs ! i) (c\<lparr>path := path c @ [digits i]\<rparr>))
                        = Inr (out ! i))"
    using mapItems_contained [of c purify xs 0] by simp
next
  fix target assume "\<not> throwOnError opts"
  then show "\<exists>out evs. sanitizeTarget purify target opts = (Inr out, evs) \<and>
                list_all2 (\<lambda>(k, x) (k', y). k' = k \<and>
                    fst (sanitizeValue purify x \<lparr>options = opts, currentDepth = 0, path = [k]\<rparr>) = Inr y)
                  target out"
    by (rule sanitizeTarget_contained)
next
  fix pre k x post e
  assume "throwOnError opts"
    and h: "(\<forall>(k', x') \<in> set pre. \<not> isl (fst (sanitizeValue purify x'
                    \<lparr>options = opts, currentDepth = 0, path = [k']\<rparr>)))
               \<and> fst (sanitizeValue purify x \<lparr>options = opts, currentDepth = 0, path = [k]\<rparr>) = Inl e"
  show "fst (sanitizeTarget purify (pre @ (k, x) # post) opts) = Inl e"
    unfolding sanitizeTarget_def
    using h by (intro targetEntries_first_throw) simp_all
next
  fix c :: SanitizationContext and pre k x post e
  assume th: "throwOnError opts"
    and h: "options c = opts \<and> reachesDispatch c \<and> deep opts
               \<and> currentDepth c < maxDepth opts
               \<and> (\<forall>(k', x') \<in> set pre. \<not> isl (fst (sanitizeValue purify x'
                    (c\<lparr>path := path c @ [k'], currentDepth := currentDepth c + 1\<rparr>))))
               \<and> fst (sanitizeValue purify x
                    (c\<lparr>path := path c @ [k], currentDepth := currentDepth c + 1\<rparr>)) = Inl e"
  have "fst (forEntries purify (pre @ (k, x) # post) c) = Inl e"
    using h by (intro forEntries_first_throw) simp_all
  then show "fst (sanitizeValue purify (JObject (pre @ (k, x) # post)) c) = Inl e"
    using th h by (intro object_rethrows) simp_all
next
  fix c :: SanitizationContext and pre x post e
  assume th: "throwOnError opts"
    and h: "options c = opts \<and> reachesDispatch c \<and> arrays opts = ArrayEach
               \<and> (\<forall>i < length pre. \<not> isl (fst (sanitizeValue purify (pre ! i)
                    (c\<lparr>path := path c @ [digits i]\<rparr>))))
               \<and> fst (sanitizeValue purify x (c\<lparr>path := path c @ [digits (length pre)]\<rparr>)) = Inl e"
  have "fst (mapItems purify (pre @ x # post) 0 c) = Inl e"
    using h by (intro mapItems_first_throw) simp_all
  then show "fst (sanitizeValue purify (JArray (pre @ x # post)) c) = Inl e"
    using th h by (intro array_rethrows) simp_all
qed

theorem custom_sanitizer_throws_witness:
  "sanitizeValue demoPurify (JString ''value'')
     \<lparr>options = DEFAULT_OPTIONS\<lparr>onError := True, fields_cfg :=
         Some [''test'' \<mapsto> \<lparr>fc_mode = Custom, fc_config = None,
                            fc_sanitizer = Some (\<lambda>v. Inl (ErrorObject ''Test error''))\<rparr>]\<rparr>,
      currentDepth = 0, path = [''test'']\<rparr>
   = (Inr (JString ''value''), [OnError (ErrorObject ''Test error'') ''test''])
   \<and> sanitizeTarget demoPurify [(''test'', JString ''value''), (''other'', JString ''<b>x</b>'')]
       (DEFAULT_OPTIONS\<lparr>onError := True, fields_cfg :=
         Some [''test'' \<mapsto> \<lparr>fc_mode = Custom, fc_config = None,
                            fc_sanitizer = Some (\<lambda>v. Inl (ErrorObject ''Test error''))\<rparr>]\<rparr>)
   = (Inr [(''test'', JString ''value''), (''other'', JString ''x'')],
      [OnError (ErrorObject ''Test error'') ''test''])
   \<and> sanitizeValue demoPurify (JString ''value'')
     \<lparr>options = DEFAULT_OPTIONS\<lparr>throwOnError := True, fields_cfg :=
         Some [''test'' \<mapsto> \<lparr>fc_mode = Custom, fc_config = None,
                            fc_sanitizer = Some (\<lambda>v. Inl (ErrorObject ''Test error''))\<rparr>]\<rparr>,
      currentDepth = 0, path = [''test'']\<rparr>
   = (Inl (ErrorObject ''Test error''), [])
   \<and> fst (sanitizeTarget demoPurify [(''test'', JString ''value''), (''other'', JString ''<b>x</b>'')]
       (DEFAULT_OPTIONS\<lparr>throwOnError := True, fields_cfg :=
         Some [''test'' \<mapsto> \<lparr>fc_mode = Custom, fc_config = None,
                            fc_sanitizer = Some (\<lambda>v. Inl (ErrorObject ''Test error''))\<rparr>]\<rparr>))
   = Inl (ErrorObject ''Test error'')"
  using
    custom_sanitizer_throws [where purify = demoPurify and p = "''test''" and v = "JString ''value''"
      and f = "\<lambda>v. Inl (ErrorObject ''Test error'')" and t = "ErrorObject ''Test error''"
      and opts = "DEFAULT_OPTIONS\<lparr>onError := True, fields_cfg :=
         Some [''test'' \<mapsto> \<lparr>fc_mode = Custom, fc_config = None,
                            fc_sanitizer = Some (\<lambda>v. Inl (ErrorObject ''Test error''))\<rparr>]\<rparr>"
      and ctx = "\<lparr>options = DEFAULT_OPTIONS\<lparr>onError := True, fields_cfg :=
         Some [''test'' \<mapsto> \<lparr>fc_mode = Custom, fc_config = None,
                            fc_sanitizer = Some (\<lambda>v. Inl (ErrorObject ''Test error''))\<rparr>]\<rparr>,
      currentDepth = 0, path = [''test'']\<rparr>"]
    custom_sanitizer_throws [where purify = demoPurify and p = "''test''" and v = "JString ''value''"
      and f = "\<lambda>v. Inl (ErrorObject ''Test error'')" and t = "ErrorObject ''Test error''"
      and opts = "DEFAULT_OPTIONS\<lparr>throwOnError := True, fields_cfg :=
         Some [''test'' \<mapsto> \<lparr>fc_mode = Custom, fc_config = None,
                            fc_sanitizer = Some (\<lambda>v. Inl (ErrorObject ''Test error''))\<rparr>]\<rparr>"
      and ctx = "\<lparr>options = DEFAULT_OPTIONS\<lparr>throwOnError := True, fields_cfg :=
         Some [''test'' \<mapsto> \<lparr>fc_mode = Custom, fc_config = None,
                            fc_sanitizer = Some (\<lambda>v. Inl (ErrorObject ''Test error''))\<rparr>]\<rparr>,
      currentDepth = 0, path = [''test'']\<rparr>"]
  by (simp add: sanitizeTarget_def sanitizeValue.simps Let_def
      DEFAULT_OPTIONS_def notify_def getFieldConfig_def shouldSkipField_def
      shouldSanitizeField_def catchError_def after_def applyCustomSanitizer_def
      customSanitizer_def resolveMode_def resolveConfig_def sanitizeStringValue_def
      sanitizeString_def demoPurify_def stripAllConfig_def normalizeError_def)

end
